theory Spec2Isabelle
  imports Main "HOL-Library.Multiset" "HOL-Library.AList"
begin

section \<open>Statuses and their aggregation\<close>

text \<open>
  Modelled from the spec: the module \<^verbatim>\<open>@lib/frameworks/status\<close> (the type
  \<^verbatim>\<open>Status\<close> and the aggregator) is imported by the sources but is not among
  them. Section 4.3 of the specification gives the closed status set in precedence
  order, highest first:
  error, failed, warning, incomplete, passed, running, queued, idle, empty.
\<close>

datatype Status =
  Error | Failed | Warning | Incomplete | Passed | Running | Queued | Idle | Empty

text \<open>The precedence of a status: the position in the order above, counted from \<open>empty\<close>.\<close>

fun precedence :: "Status \<Rightarrow> nat" where
  "precedence Error = 8"
| "precedence Failed = 7"
| "precedence Warning = 6"
| "precedence Incomplete = 5"
| "precedence Passed = 4"
| "precedence Running = 3"
| "precedence Queued = 2"
| "precedence Idle = 1"
| "precedence Empty = 0"

definition higher :: "Status \<Rightarrow> Status \<Rightarrow> Status" where
  "higher a b = (if precedence b \<le> precedence a then a else b)"

text \<open>
  Modelled from the spec: ``a parent's status equals the highest-precedence status among
  the children''; \<open>empty\<close> ``only applies to a childless container''. The children's
  statuses are consumed in sequence order.
\<close>

definition aggregate :: "Status list \<Rightarrow> Status" where
  "aggregate ss = foldr higher ss Empty"

text \<open>What a throwing statement throws: a TypeError of the runtime (a property read on
  an undefined value), or the value of an explicit \<^verbatim>\<open>throw\<close>.\<close>

datatype error = TypeError | Thrown


section \<open>Result fragments (\<^verbatim>\<open>ITestResult\<close>)\<close>

text \<open>
  The interface \<^verbatim>\<open>ITestResult\<close>. A fragment arrives from a reporter as parsed
  JSON, so any property may be missing at run time, the ones the interface requires
  included: every field is an option, \<open>None\<close> being an absent (undefined or null)
  property. The \<open>stats\<close> object is a list of key/value pairs in property order;
  the values the code writes are ISO timestamps. \<open>tests\<close> nests recursively.
\<close>

datatype ITestResult = ITestResult
  (r_id: "string option")
  (r_name: "string option")
  (r_displayName: "string option")
  (r_status: "Status option")
  (r_feedback: "string option")
  (r_console: "string list option")
  (r_params: "string option")
  (r_stats: "(string \<times> string) list option")
  (r_isLast: "bool option")
  (r_tests: "ITestResult list option")
  (r_hasChildren: "bool option")

text \<open>Assignments to one property of a fragment.\<close>

definition with_status :: "Status option \<Rightarrow> ITestResult \<Rightarrow> ITestResult" where
  "with_status s r =
     ITestResult (r_id r) (r_name r) (r_displayName r) s (r_feedback r) (r_console r)
       (r_params r) (r_stats r) (r_isLast r) (r_tests r) (r_hasChildren r)"

definition with_stats :: "(string \<times> string) list option \<Rightarrow> ITestResult \<Rightarrow> ITestResult" where
  "with_stats st r =
     ITestResult (r_id r) (r_name r) (r_displayName r) (r_status r) (r_feedback r) (r_console r)
       (r_params r) st (r_isLast r) (r_tests r) (r_hasChildren r)"

definition with_tests :: "ITestResult list option \<Rightarrow> ITestResult \<Rightarrow> ITestResult" where
  "with_tests ts r =
     ITestResult (r_id r) (r_name r) (r_displayName r) (r_status r) (r_feedback r) (r_console r)
       (r_params r) (r_stats r) (r_isLast r) ts (r_hasChildren r)"

definition with_hasChildren :: "bool option \<Rightarrow> ITestResult \<Rightarrow> ITestResult" where
  "with_hasChildren h r =
     ITestResult (r_id r) (r_name r) (r_displayName r) (r_status r) (r_feedback r) (r_console r)
       (r_params r) (r_stats r) (r_isLast r) (r_tests r) h"

text \<open>The child fragments that \<^verbatim>\<open>result.tests && result.tests.length\<close> lets through:
  none when the property is absent or an empty array.\<close>

definition tests_of :: "ITestResult \<Rightarrow> ITestResult list" where
  "tests_of r = (case r_tests r of None \<Rightarrow> [] | Some ts \<Rightarrow> ts)"

text \<open>
  Modelled from the spec: \<^verbatim>\<open>Nugget.getRecursiveStatus\<close> is called by
  \<^verbatim>\<open>Test.build\<close> but the class \<^verbatim>\<open>Nugget\<close> is not among the sources. Section 4.3:
  ``a leaf Test's status comes directly from its own result payload'' (it may be
  absent), and a parent's status is the aggregate of its children's; section 4.2 has
  an absent status count as \<open>idle\<close>.
\<close>

function getRecursiveStatus :: "ITestResult \<Rightarrow> Status option" where
  "getRecursiveStatus r =
     (if tests_of r = [] then r_status r
      else Some (aggregate (map (\<lambda>t. case getRecursiveStatus t of None \<Rightarrow> Idle | Some s \<Rightarrow> s)
                                (tests_of r))))"
  by pat_completeness auto
termination
proof (relation "measure size")
  show "wf (measure (size :: ITestResult \<Rightarrow> nat))" by simp
next
  fix r x :: ITestResult
  assume "x \<in> set (tests_of r)"
  then have "size x \<le> size_list size (tests_of r)"
    by (rule size_list_estimation') simp
  moreover have "size_list size (tests_of r) < size r"
    by (cases r) (simp add: tests_of_def split: option.splits)
  ultimately show "(x, r) \<in> measure size" by simp
qed

section \<open>Tree nodes (\<^verbatim>\<open>Nugget\<close>, \<^verbatim>\<open>Test\<close>)\<close>

text \<open>
  Modelled from the spec: the fields a \<^verbatim>\<open>Test\<close> inherits from \<^verbatim>\<open>Nugget\<close>
  (section 3: \<open>status\<close>, \<open>selected\<close>, \<open>expanded\<close>, \<open>partial\<close>, the ordered
  \<open>children\<close>), next to the \<open>result\<close> field that \<^verbatim>\<open>Test\<close> declares itself.
  \<open>result\<close> is undefined until the constructor's \<^verbatim>\<open>build\<close> has assigned it.
  A Suite is a node of the same shape.
\<close>

datatype Test = Test
  (status: Status)
  (result: "ITestResult option")
  (children: "Test list")
  (selected: bool)
  (expanded: bool)
  (partial: bool)

text \<open>Modelled from the spec: the node as \<^verbatim>\<open>super(window)\<close> leaves it, before
  \<^verbatim>\<open>build\<close>: no result, no children, no flag set.\<close>

definition nugget :: Test where
  "nugget = Test Idle None [] False False False"

definition with_result :: "ITestResult option \<Rightarrow> Test \<Rightarrow> Test" where
  "with_result r t = Test (status t) r (children t) (selected t) (expanded t) (partial t)"

definition with_children :: "Test list \<Rightarrow> Test \<Rightarrow> Test" where
  "with_children cs t = Test (status t) (result t) cs (selected t) (expanded t) (partial t)"

definition with_partial :: "bool \<Rightarrow> Test \<Rightarrow> Test" where
  "with_partial p t = Test (status t) (result t) (children t) (selected t) (expanded t) p"

definition with_expanded :: "bool \<Rightarrow> Test \<Rightarrow> Test" where
  "with_expanded e t = Test (status t) (result t) (children t) (selected t) e (partial t)"

text \<open>Modelled from the spec: \<^verbatim>\<open>Nugget.updateStatus(to)\<close> with an explicit status is
  step 1 of \<^verbatim>\<open>build\<close> in section 4.2: the node takes the status given.\<close>

definition updateStatus :: "Test \<Rightarrow> Status \<Rightarrow> Test" where
  "updateStatus t to = Test to (result t) (children t) (selected t) (expanded t) (partial t)"

text \<open>\<^verbatim>\<open>getId\<close> returns \<^verbatim>\<open>this.result.id\<close>, undefined when the fragment had none.\<close>

definition getId :: "Test \<Rightarrow> string option" where
  "getId t = (case result t of None \<Rightarrow> None | Some r \<Rightarrow> r_id r)"

definition getStatus :: "Test \<Rightarrow> Status" where
  "getStatus t = status t"

text \<open>The position of the first child with a given id, if any.\<close>

primrec index_of_id :: "string option \<Rightarrow> Test list \<Rightarrow> nat option" where
  "index_of_id i [] = None"
| "index_of_id i (c # cs) =
     (if getId c = i then Some 0 else map_option Suc (index_of_id i cs))"

text \<open>JavaScript truthiness of an optional string: defined and not empty.\<close>

definition truthy :: "string option \<Rightarrow> bool" where
  "truthy v = (case v of None \<Rightarrow> False | Some s \<Rightarrow> s \<noteq> [])"

text \<open>lodash's \<^verbatim>\<open>get(x, 'stats.first')\<close> and \<^verbatim>\<open>get(x, 'stats.last')\<close>: undefined
  when \<open>x\<close>, its \<open>stats\<close> or the property is missing.\<close>

definition get_stats_first :: "ITestResult option \<Rightarrow> string option" where
  "get_stats_first ro =
     (case ro of None \<Rightarrow> None
      | Some r \<Rightarrow> (case r_stats r of None \<Rightarrow> None | Some st \<Rightarrow> map_of st ''first''))"

definition get_stats_last :: "ITestResult option \<Rightarrow> string option" where
  "get_stats_last ro =
     (case ro of None \<Rightarrow> None
      | Some r \<Rightarrow> (case r_stats r of None \<Rightarrow> None | Some st \<Rightarrow> map_of st ''last''))"

text \<open>\<^verbatim>\<open>result.stats || {}\<close>\<close>

definition stats_or_empty :: "ITestResult \<Rightarrow> (string \<times> string) list" where
  "stats_or_empty r = (case r_stats r of None \<Rightarrow> [] | Some st \<Rightarrow> st)"

text \<open>
  \<^verbatim>\<open>Test.mergeResults\<close>. \<open>now\<close> is the reading of the clock
  (\<^verbatim>\<open>new Date().toISOString()\<close>); one synchronous call sees one instant. The spread
  \<^verbatim>\<open>{ ...stats, ...{ first: v } }\<close> overwrites \<open>first\<close> in place or appends it.
\<close>

definition mergeResults :: "Test \<Rightarrow> ITestResult \<Rightarrow> string \<Rightarrow> ITestResult" where
  "mergeResults this r now =
     (if truthy (get_stats_first (Some r)) then r
      else with_stats
             (Some (AList.update ''first''
                      (case get_stats_first (result this) of Some v \<Rightarrow> v | None \<Rightarrow> now)
                      (stats_or_empty r))) r)"

text \<open>The fragment object a child was built from, as the build left it: it is the
  child's \<open>result\<close>.\<close>

definition amended :: "Test \<Rightarrow> ITestResult \<Rightarrow> ITestResult" where
  "amended t fr = (case result t of None \<Rightarrow> fr | Some x \<Rightarrow> x)"

text \<open>
  Modelled from the spec: step 3 of \<^verbatim>\<open>build\<close> in section 4.2, part of the missing
  \<^verbatim>\<open>Nugget.debriefTests\<close>: with \<open>cleanup\<close>, ``any existing child not represented
  in the incoming payload is removed''.
\<close>

definition cleanupTests :: "ITestResult list \<Rightarrow> Test list \<Rightarrow> Test list" where
  "cleanupTests frs cs = filter (\<lambda>c. getId c \<in> set (map r_id frs)) cs"

text \<open>
  Modelled from the spec: step 4 of \<^verbatim>\<open>build\<close> in section 4.2, part of the missing
  \<^verbatim>\<open>Nugget.debriefTests\<close>: the status is recomputed from the current status of every
  child (section 4.3), and \<open>partial\<close> is set when the fragment covered less than the
  full child set.
\<close>

definition afterDebrief :: "ITestResult list \<Rightarrow> Test \<Rightarrow> Test" where
  "afterDebrief frs t =
     with_partial (list_ex (\<lambda>c. getId c \<notin> set (map r_id frs)) (children t))
       (updateStatus t (aggregate (map getStatus (children t))))"

text \<open>
  \<^verbatim>\<open>Test.build\<close>, as in the source, with the inherited methods as modelled here:
  the fragment's status is amended, the fragment is merged with the existing result and
  becomes \<^verbatim>\<open>this.result\<close>, the status is updated (\<open>idle\<close> when empty), and the
  children are debriefed only when the fragment carries a non-empty \<open>tests\<close> array.
  The same method over arbitrary inherited methods is \<open>Test_build\<close> below.
\<close>

text \<open>
  Modelled from the spec: \<^verbatim>\<open>Nugget.debriefTests\<close> is not among the sources. Steps 2
  to 4 of section 4.2: each child fragment is merged, in order, into the first existing
  child with the same id, recursively by \<^verbatim>\<open>build\<close>; when no child matches, a new
  one is created by \<^verbatim>\<open>newTest\<close>, whose constructor (in the source) calls
  \<^verbatim>\<open>build(result, false)\<close> on a fresh node and which is appended (\<open>mergedTest\<close>
  is the child built, \<open>mergeTest\<close> the child list with it); then the cleanup and the
  recomputation above.

  \<^verbatim>\<open>build\<close>, \<^verbatim>\<open>mergeResults\<close> and \<^verbatim>\<open>newTest\<close> amend the fragment object they
  are given, and \<^verbatim>\<open>this.result\<close> is that object: the elements of
  \<^verbatim>\<open>this.result.tests\<close> are the child fragments as the children's builds left them
  (\<open>amendedTests\<close>), each with its status and first-seen date set at the time it was
  merged.
\<close>

function build :: "Test \<Rightarrow> ITestResult \<Rightarrow> bool \<Rightarrow> string \<Rightarrow> Test"
  and debriefTests :: "Test \<Rightarrow> ITestResult list \<Rightarrow> bool \<Rightarrow> string \<Rightarrow> Test"
  and mergeTests :: "Test list \<Rightarrow> ITestResult list \<Rightarrow> bool \<Rightarrow> string \<Rightarrow> Test list"
  and amendedTests :: "Test list \<Rightarrow> ITestResult list \<Rightarrow> bool \<Rightarrow> string \<Rightarrow> ITestResult list"
  and mergeTest :: "Test list \<Rightarrow> ITestResult \<Rightarrow> bool \<Rightarrow> string \<Rightarrow> Test list"
  and mergedTest :: "Test list \<Rightarrow> ITestResult \<Rightarrow> bool \<Rightarrow> string \<Rightarrow> Test"
where
  "build this r cleanup now =
     (let st = getRecursiveStatus r;
          r1 = with_status st r;
          this1 = with_result (Some (mergeResults this r1 now)) this;
          this2 = updateStatus this1 (case st of None \<Rightarrow> Idle | Some s \<Rightarrow> s)
      in if tests_of r \<noteq> [] then debriefTests this2 (tests_of r) cleanup now else this2)"
| "debriefTests this frs cleanup now =
     (let merged = mergeTests (children this) frs cleanup now;
          amended = amendedTests (children this) frs cleanup now;
          kept = (if cleanup then cleanupTests frs merged else merged)
      in afterDebrief frs
           (with_children kept
              (with_result (map_option (with_tests (Some amended)) (result this)) this)))"
| "mergeTests cs [] cleanup now = cs"
| "mergeTests cs (fr # frs) cleanup now =
     mergeTests (mergeTest cs fr cleanup now) frs cleanup now"
| "amendedTests cs [] cleanup now = []"
| "amendedTests cs (fr # frs) cleanup now =
     amended (mergedTest cs fr cleanup now) fr
       # amendedTests (mergeTest cs fr cleanup now) frs cleanup now"
| "mergeTest cs fr cleanup now =
     (case index_of_id (r_id fr) cs of
        None \<Rightarrow> cs @ [mergedTest cs fr cleanup now]
      | Some i \<Rightarrow> cs[i := mergedTest cs fr cleanup now])"
| "mergedTest cs fr cleanup now =
     (case index_of_id (r_id fr) cs of
        None \<Rightarrow> build nugget fr False now
      | Some i \<Rightarrow> build (cs ! i) fr cleanup now)"
  by pat_completeness auto
termination
proof (relation "measure (\<lambda>x. case x of
          Inl (Inl (t, r, c, n)) \<Rightarrow> 3 * size r
        | Inl (Inr (Inl (t, frs, c, n))) \<Rightarrow> 3 * size_list size frs + 2
        | Inl (Inr (Inr (cs, frs, c, n))) \<Rightarrow> 3 * size_list size frs + 1
        | Inr (Inl (cs, frs, c, n)) \<Rightarrow> 3 * size_list size frs + 1
        | Inr (Inr (Inl (cs, fr, c, n))) \<Rightarrow> 3 * size fr + 2
        | Inr (Inr (Inr (cs, fr, c, n))) \<Rightarrow> 3 * size fr + 1)", goal_cases)
  case (2 this r cleanup now st r1 this1 this2)
  have "size_list size (tests_of r) < size r"
    by (cases r) (simp add: tests_of_def split: option.splits)
  then show ?case by simp
qed simp_all

declare build.simps [simp del] debriefTests.simps [simp del] mergeTest.simps [simp del]
  mergedTest.simps [simp del]
  getRecursiveStatus.simps [simp del]

text \<open>\<^verbatim>\<open>Test.newTest\<close>: \<^verbatim>\<open>new Test(this.window, result)\<close>, whose constructor builds
  the fresh node from the fragment without cleanup.\<close>

definition newTest :: "ITestResult \<Rightarrow> string \<Rightarrow> Test" where
  "newTest r now = build nugget r False now"

text \<open>A promise that has settled.\<close>

datatype 'a promise = Resolved 'a | Rejected

text \<open>
  \<^verbatim>\<open>Test.debrief\<close> on a payload that is an object, with the inherited methods as
  modelled above and the clock read once: the fragment's stats are stamped with the last
  run time, then the promise's executor builds, emits \<open>debriefed\<close> and resolves. The
  result is the node after the call and the events emitted, in order. The method for
  any payload and any inherited methods is \<open>Test_debrief\<close> below.
\<close>

definition debrief ::
  "Test \<Rightarrow> ITestResult \<Rightarrow> bool \<Rightarrow> string \<Rightarrow> (Test \<times> string list) promise" where
  "debrief this r cleanup now =
     (let r' = with_stats (Some (AList.update ''last'' now (stats_or_empty r))) r;
          this' = build this r' cleanup now
      in Resolved (this', [''debriefed'']))"

subsection \<open>\<^verbatim>\<open>build\<close> and \<^verbatim>\<open>debrief\<close> over the inherited methods\<close>

text \<open>The outcome of a call: it throws, or it returns a value.\<close>

datatype 'a call = Throws error | Returns 'a

text \<open>
  The methods of \<^verbatim>\<open>Nugget\<close> that \<^verbatim>\<open>Test.build\<close> calls on \<open>this\<close>. The class is
  not among the sources, so each is a parameter here, and each may throw:
  \<^verbatim>\<open>getRecursiveStatus(result)\<close> returns a status, possibly empty;
  \<^verbatim>\<open>updateStatus(to)\<close> and \<^verbatim>\<open>debriefTests(tests, cleanup)\<close> return the node as
  they leave it.
\<close>

record NuggetMethods =
  m_getRecursiveStatus :: "Test \<Rightarrow> ITestResult \<Rightarrow> error + Status option"
  m_updateStatus :: "Test \<Rightarrow> Status \<Rightarrow> error + Test"
  m_debriefTests :: "Test \<Rightarrow> ITestResult list \<Rightarrow> bool \<Rightarrow> error + Test"

text \<open>
  \<^verbatim>\<open>Test.build\<close>, statement by statement: the status the fragment is amended with,
  the merge that becomes \<^verbatim>\<open>this.result\<close>, \<^verbatim>\<open>updateStatus(result.status || 'idle')\<close>,
  and \<^verbatim>\<open>debriefTests\<close> under the guard on \<^verbatim>\<open>result.tests\<close>. An exception of a
  method called ends the build.
\<close>

definition Test_build ::
  "NuggetMethods \<Rightarrow> Test \<Rightarrow> ITestResult \<Rightarrow> bool \<Rightarrow> string \<Rightarrow> error + Test" where
  "Test_build N this r cleanup now =
     (case m_getRecursiveStatus N this r of
        Inl e \<Rightarrow> Inl e
      | Inr st \<Rightarrow>
          (let r1 = with_status st r;
               this1 = with_result (Some (mergeResults this r1 now)) this
           in case m_updateStatus N this1 (case st of None \<Rightarrow> Idle | Some s \<Rightarrow> s) of
                Inl e \<Rightarrow> Inl e
              | Inr this2 \<Rightarrow>
                  if tests_of r1 \<noteq> [] then m_debriefTests N this2 (tests_of r1) cleanup
                  else Inr this2))"

text \<open>\<^verbatim>\<open>result.stats = { ...(result.stats || {}), ...{ last: now } }\<close>\<close>

definition stamp_last :: "string \<Rightarrow> ITestResult \<Rightarrow> ITestResult" where
  "stamp_last now r = with_stats (Some (AList.update ''last'' now (stats_or_empty r))) r"

text \<open>
  \<^verbatim>\<open>Test.debrief\<close>. The payload is \<open>None\<close> when it is null or undefined: the
  first statement, which runs before the promise exists, then throws a TypeError. For an
  object the stats are stamped with the clock as \<^verbatim>\<open>debrief\<close> reads it
  (\<open>now_last\<close>) and a promise is returned; its executor builds (where
  \<^verbatim>\<open>mergeResults\<close> reads the clock again, \<open>now_first\<close>), emits \<open>debriefed\<close>
  and resolves, and an exception inside the executor rejects the promise.
\<close>

definition Test_debrief ::
  "NuggetMethods \<Rightarrow> Test \<Rightarrow> ITestResult option \<Rightarrow> bool \<Rightarrow> string \<Rightarrow> string
     \<Rightarrow> (Test \<times> string list) promise call" where
  "Test_debrief N this payload cleanup now_last now_first =
     (case payload of
        None \<Rightarrow> Throws TypeError
      | Some r \<Rightarrow>
          Returns (case Test_build N this (stamp_last now_last r) cleanup now_first of
                     Inl e \<Rightarrow> Rejected
                   | Inr this' \<Rightarrow> Resolved (this', [''debriefed''])))"

text \<open>The inherited methods as modelled from the spec above; none of them throws.\<close>

definition modelled_methods :: "string \<Rightarrow> NuggetMethods" where
  "modelled_methods now =
     \<lparr>m_getRecursiveStatus = (\<lambda>this r. Inr (getRecursiveStatus r)),
      m_updateStatus = (\<lambda>this to. Inr (updateStatus this to)),
      m_debriefTests = (\<lambda>this frs cleanup. Inr (debriefTests this frs cleanup now))\<rparr>"

text \<open>
  Modelled from the spec: \<^verbatim>\<open>Nugget.defaults(result, status)\<close> is not among the
  sources. The doc comments of \<^verbatim>\<open>render\<close> and \<^verbatim>\<open>persist\<close> describe its second
  argument: ``Which status to recursively set on tests. False will persist current
  status''; section 6 has the output be ``the full merged result tree with status forced
  to idle unless explicitly requested otherwise''. \<open>None\<close> is \<open>false\<close>.
\<close>

function defaults :: "ITestResult \<Rightarrow> Status option \<Rightarrow> ITestResult" where
  "defaults r st =
     with_tests (case r_tests r of None \<Rightarrow> None
                 | Some ts \<Rightarrow> Some (map (\<lambda>t. defaults t st) ts))
       (with_status (case st of None \<Rightarrow> r_status r | Some s \<Rightarrow> Some s) r)"
  by pat_completeness auto
termination
proof (relation "measure (\<lambda>(r, st). size r)")
  show "wf (measure (\<lambda>(r :: ITestResult, st :: Status option). size r))" by simp
next
  fix r x :: ITestResult and st :: "Status option" and ts
  assume "r_tests r = Some ts" and "x \<in> set ts"
  then have "size x \<le> size_list size ts"
    by (simp add: size_list_estimation')
  moreover from \<open>r_tests r = Some ts\<close> have "size_list size ts < size r"
    by (cases r) simp
  ultimately show "((x, st), (r, st)) \<in> measure (\<lambda>(r, st). size r)" by simp
qed

declare defaults.simps [simp del]

text \<open>Modelled from the spec: \<^verbatim>\<open>Nugget.hasChildren\<close>, a ``structural query over the
  immediate child sequence'' (section 4.1).\<close>

definition hasChildren :: "Test \<Rightarrow> bool" where
  "hasChildren this = (children this \<noteq> [])"

text \<open>The parameter \<^verbatim>\<open>status: Status | false = 'idle'\<close> of \<^verbatim>\<open>render\<close> and
  \<^verbatim>\<open>persist\<close>: \<open>None\<close> is an omitted argument, which takes the default;
  \<open>Some None\<close> is \<open>false\<close>.\<close>

definition status_argument :: "Status option option \<Rightarrow> Status option" where
  "status_argument a = (case a of None \<Rightarrow> Some Idle | Some s \<Rightarrow> s)"

text \<open>\<^verbatim>\<open>Test.persist\<close>. A node that was never built has no result to prepare
  (\<open>None\<close>); the constructor builds every \<^verbatim>\<open>Test\<close>.\<close>

definition persist :: "Test \<Rightarrow> Status option option \<Rightarrow> ITestResult option" where
  "persist this a =
     (case result this of None \<Rightarrow> None
      | Some r \<Rightarrow> Some (defaults r (status_argument a)))"

text \<open>The object \<^verbatim>\<open>render\<close> returns: the properties of an \<^verbatim>\<open>ITestResult\<close>, and
  \<open>selected\<close> and \<open>partial\<close> beside them.\<close>

datatype Rendered = Rendered
  (payload: ITestResult)
  (payload_selected: bool)
  (payload_partial: bool)

text \<open>\<^verbatim>\<open>Test.render\<close>: the defaults, with \<open>hasChildren\<close>, \<open>selected\<close> and
  \<open>partial\<close> added and \<open>tests\<close> omitted.\<close>

definition render :: "Test \<Rightarrow> Status option option \<Rightarrow> Rendered option" where
  "render this a =
     (case result this of None \<Rightarrow> None
      | Some r \<Rightarrow>
          Some (Rendered
                  (with_tests None
                     (with_hasChildren (Some (hasChildren this))
                        (defaults r (status_argument a))))
                  (selected this) (partial this)))"

section \<open>Looking nodes up (src/main/index.ts)\<close>

text \<open>
  Modelled from the spec: a Framework ``owns a sequence of Suites'' (section 3). A
  context pairs it with its repository, which is opaque here. A project is seen through
  its method \<^verbatim>\<open>getContextByFrameworkId\<close>.
\<close>

record Framework =
  suites :: "Test list"

record Context =
  repository :: string
  framework :: Framework

type_synonym Project = "string \<Rightarrow> Context option"

text \<open>\<^verbatim>\<open>ProjectEntities\<close>: \<open>nuggets\<close> and \<open>nugget\<close> are only present when
  identifiers were given.\<close>

record ProjectEntities =
  entities_project :: Project
  entities_repository :: string
  entities_framework :: Framework
  entities_nuggets :: "Test list option"
  entities_nugget :: "Test option"

text \<open>
  Modelled from the spec: \<^verbatim>\<open>Framework.getSuiteById\<close> and \<^verbatim>\<open>Nugget.findTest\<close> are
  not among the sources; nodes are ``matched by identity/id'' (section 4.2), the first
  match in sequence order. The argument is what \<^verbatim>\<open>identifiers.shift()\<close> returned.
\<close>

definition getSuiteById :: "Framework \<Rightarrow> string option \<Rightarrow> Test option" where
  "getSuiteById fw i = find (\<lambda>s. getId s = i) (suites fw)"

definition findTest :: "Test \<Rightarrow> string option \<Rightarrow> Test option" where
  "findTest n i = find (\<lambda>c. getId c = i) (children n)"

text \<open>
  Modelled from the spec: \<^verbatim>\<open>Nugget.toggleExpanded(true, false)\<close> ``sets
  \<open>expanded\<close>; if toggling on and children are not yet materialized, triggers a
  lazy-load request to the external data-source collaborator'' (section 4.1). The
  collaborator is the parameter \<open>load\<close>: for a node it delivers a child list, or
  nothing (the request is fire-and-forget, section 5, or nothing was left to
  materialise), or it fails and the promise the caller awaits rejects.
\<close>

type_synonym LazyLoad = "Test \<Rightarrow> Test list option promise"

definition toggleExpanded :: "LazyLoad \<Rightarrow> Test \<Rightarrow> Test promise" where
  "toggleExpanded load n =
     (case load n of
        Rejected \<Rightarrow> Rejected
      | Resolved None \<Rightarrow> Resolved (with_expanded True n)
      | Resolved (Some cs) \<Rightarrow> Resolved (with_expanded True (with_children cs n)))"

text \<open>\<^verbatim>\<open>identifiers.shift()\<close>: the first element, undefined on an empty array; the
  array that is left is \<open>tl\<close>.\<close>

definition shift :: "string list \<Rightarrow> string option" where
  "shift ids = (case ids of [] \<Rightarrow> None | i # _ \<Rightarrow> Some i)"

text \<open>
  The \<^verbatim>\<open>do ... while (identifiers.length > 0)\<close> loop of \<^verbatim>\<open>entities\<close>: \<open>cur\<close> is
  the variable \<open>nugget\<close> (undefined before the first round, where the suite is looked
  up), \<open>acc\<close> the array \<open>nuggets\<close>. A failed lookup throws, and so does awaiting an
  expansion that rejects. The nugget pushed is the object that is then expanded.
\<close>

function entities_loop ::
  "LazyLoad \<Rightarrow> Framework \<Rightarrow> Test option \<Rightarrow> string list \<Rightarrow> Test list
     \<Rightarrow> error + (Test list \<times> Test)" where
  "entities_loop load fw cur ids acc =
     (case (case cur of Some n \<Rightarrow> findTest n (shift ids) | None \<Rightarrow> getSuiteById fw (shift ids)) of
        None \<Rightarrow> Inl Thrown
      | Some n \<Rightarrow>
          (case (if expanded n then Resolved n else toggleExpanded load n) of
             Rejected \<Rightarrow> Inl Thrown
           | Resolved n' \<Rightarrow>
               (let acc' = acc @ [n']
                in if length (tl ids) > 0 then entities_loop load fw (Some n') (tl ids) acc'
                   else Inr (acc', n'))))"
  by pat_completeness auto
termination
  by (relation "measure (\<lambda>(load, fw, cur, ids, acc). length ids)") auto

declare entities_loop.simps [simp del]

text \<open>
  \<^verbatim>\<open>entities\<close>. \<open>project\<close> is what \<^verbatim>\<open>getProject(event)\<close> returned; on an
  undefined project the method call throws inside the \<^verbatim>\<open>try\<close>. Every exception is
  caught, and whatever did not resolve rejects.
\<close>

definition entities ::
  "LazyLoad \<Rightarrow> Project option \<Rightarrow> string \<Rightarrow> string list \<Rightarrow> ProjectEntities promise" where
  "entities load project frameworkId identifiers =
     (case project of
        None \<Rightarrow> Rejected
      | Some p \<Rightarrow>
          (case p frameworkId of
             None \<Rightarrow> Rejected
           | Some ctx \<Rightarrow>
               if identifiers = [] then
                 Resolved \<lparr>entities_project = p, entities_repository = repository ctx,
                           entities_framework = framework ctx,
                           entities_nuggets = None, entities_nugget = None\<rparr>
               else
                 (case entities_loop load (framework ctx) None identifiers [] of
                    Inl e \<Rightarrow> Rejected
                  | Inr (ns, n) \<Rightarrow>
                      Resolved \<lparr>entities_project = p, entities_repository = repository ctx,
                                entities_framework = framework ctx,
                                entities_nuggets = Some ns, entities_nugget = Some n\<rparr>)))"

text \<open>The reply of the \<open>test-get\<close> handler; \<open>None\<close> is a null or absent property.
  What \<^verbatim>\<open>repository.render()\<close> and \<^verbatim>\<open>framework.render()\<close> produce is left opaque.\<close>

record TestGetReply =
  reply_repository :: "string option"
  reply_framework :: "Framework option"
  reply_nuggets :: "Rendered list option"
  reply_nugget :: "Rendered option"

text \<open>\<^verbatim>\<open>{ framework: null, nuggets: null }\<close>\<close>

definition not_found_reply :: TestGetReply where
  "not_found_reply =
     \<lparr>reply_repository = None, reply_framework = None,
      reply_nuggets = None, reply_nugget = None\<rparr>"

text \<open>
  The handler of \<open>test-get\<close>: it awaits \<^verbatim>\<open>entities\<close> and renders what it found with
  \<^verbatim>\<open>render(false)\<close>; a rejection, or an exception while rendering (\<open>nuggets\<close>
  undefined, a node without result), is caught and answered with the null reply.
\<close>

definition test_get ::
  "LazyLoad \<Rightarrow> Project option \<Rightarrow> string \<Rightarrow> string list \<Rightarrow> TestGetReply" where
  "test_get load project frameworkId identifiers =
     (case entities load project frameworkId identifiers of
        Rejected \<Rightarrow> not_found_reply
      | Resolved e \<Rightarrow>
          (case entities_nuggets e of
             None \<Rightarrow> not_found_reply
           | Some ns \<Rightarrow>
               (case those (map (\<lambda>n. render n (Some None)) ns) of
                  None \<Rightarrow> not_found_reply
                | Some rendered \<Rightarrow>
                    (case entities_nugget e of
                       None \<Rightarrow> not_found_reply
                     | Some n \<Rightarrow>
                         (case render n (Some None) of
                            None \<Rightarrow> not_found_reply
                          | Some r \<Rightarrow>
                              \<lparr>reply_repository = Some (entities_repository e),
                               reply_framework = Some (entities_framework e),
                               reply_nuggets = Some rendered,
                               reply_nugget = Some r\<rparr>)))))"

section \<open>Notions the properties are stated with\<close>

text \<open>The children a lookup finds below a node: those the node has, or those the
  lazy load delivers when the node is expanded for the lookup.\<close>

definition children_seen :: "LazyLoad \<Rightarrow> Test \<Rightarrow> Test list" where
  "children_seen load n =
     (if expanded n then children n
      else (case load n of Resolved (Some cs) \<Rightarrow> cs | _ \<Rightarrow> children n))"

text \<open>An identifier path exists in the tree: some node with the first id has the rest
  of the path below it.\<close>

fun path_exists :: "LazyLoad \<Rightarrow> Test list \<Rightarrow> string list \<Rightarrow> bool" where
  "path_exists load ns [] = True"
| "path_exists load ns (i # ids) =
     list_ex (\<lambda>n. getId n = Some i \<and> path_exists load (children_seen load n) ids) ns"

text \<open>The statuses of a result tree, the root first.\<close>

function statuses :: "ITestResult \<Rightarrow> Status option list" where
  "statuses r = r_status r # concat (map statuses (tests_of r))"
  by pat_completeness auto
termination
proof (relation "measure size")
  show "wf (measure (size :: ITestResult \<Rightarrow> nat))" by simp
next
  fix r x :: ITestResult
  assume "x \<in> set (tests_of r)"
  then have "size x \<le> size_list size (tests_of r)"
    by (rule size_list_estimation') simp
  moreover have "size_list size (tests_of r) < size r"
    by (cases r) (simp add: tests_of_def split: option.splits)
  ultimately show "(x, r) \<in> measure size" by simp
qed

declare statuses.simps [simp del]

text \<open>A result tree with every status taken out: what is left is everything but the
  statuses.\<close>

function erase_statuses :: "ITestResult \<Rightarrow> ITestResult" where
  "erase_statuses r =
     with_tests (case r_tests r of None \<Rightarrow> None | Some ts \<Rightarrow> Some (map erase_statuses ts))
       (with_status None r)"
  by pat_completeness auto
termination
proof (relation "measure size")
  show "wf (measure (size :: ITestResult \<Rightarrow> nat))" by simp
next
  fix r x :: ITestResult and ts
  assume "r_tests r = Some ts" and "x \<in> set ts"
  then have "size x \<le> size_list size ts"
    by (simp add: size_list_estimation')
  moreover from \<open>r_tests r = Some ts\<close> have "size_list size ts < size r"
    by (cases r) simp
  ultimately show "(x, r) \<in> measure size" by simp
qed

declare erase_statuses.simps [simp del]




text \<open>The fragments \<open>fs\<close> built into one node one after the other, without cleanup:
  what a child receives from a fragment list, which may name it more than once.\<close>

definition buildAll :: "Test \<Rightarrow> ITestResult list \<Rightarrow> string \<Rightarrow> Test" where
  "buildAll t fs now = foldl (\<lambda>t f. build t f False now) t fs"


subsection \<open>Concrete fragments and nodes\<close>

definition leaf :: "string \<Rightarrow> Status \<Rightarrow> ITestResult" where
  "leaf i s = ITestResult (Some i) (Some i) None (Some s) None None None None None None None"

text \<open>A leaf result with a first-seen date.\<close>

definition stamped_leaf :: "string \<Rightarrow> Status \<Rightarrow> string \<Rightarrow> ITestResult" where
  "stamped_leaf i s t =
     ITestResult (Some i) (Some i) None (Some s) None None None (Some [(''first'', t)])
       None None None"

definition suite_fragment :: "string \<Rightarrow> ITestResult list \<Rightarrow> ITestResult" where
  "suite_fragment i ts =
     ITestResult (Some i) (Some i) None None None None None None None (Some ts) None"

text \<open>A suite with the tests A (passed) and B (failed).\<close>

definition suite_AB :: Test where
  "suite_AB =
     newTest (suite_fragment ''suite'' [leaf ''A'' Passed, leaf ''B'' Failed])
       ''2020-01-01T00:00:00.000Z''"


text \<open>A result as restored from the store, and one coming in, each with a first-seen
  date of its own.\<close>

definition stored_first :: ITestResult where
  "stored_first =
     ITestResult (Some ''t1'') (Some ''adds'') None (Some Passed) None None None
       (Some [(''first'', ''2020-01-01T00:00:00.000Z'')]) None None None"

definition incoming_first :: ITestResult where
  "incoming_first =
     ITestResult (Some ''t1'') (Some ''adds'') None (Some Passed) None None None
       (Some [(''first'', ''2021-06-01T00:00:00.000Z'')]) None None None"


section \<open>The SSH connection (src/main/lib/process/ssh.ts)\<close>

datatype jsval = JStr string | JNum int

text \<open>
  \<^verbatim>\<open>SSHOptions\<close>: \<open>host\<close> is required, every other property is optional
  (\<open>None\<close> is an absent property). The nested \<open>options\<close> object is a list of
  key/value pairs in property order.
\<close>

record SSHOptions =
  host :: string
  user :: "string option"
  port :: "int option"
  Identity :: "string option"
  options :: "(string \<times> jsval) list option"


text \<open>An object spread \<^verbatim>\<open>{ ...a, ...b }\<close>: the properties of \<open>b\<close> override those
  of \<open>a\<close> in place, new ones are appended.\<close>

definition spread :: "(string \<times> jsval) list \<Rightarrow> (string \<times> jsval) list \<Rightarrow> (string \<times> jsval) list" where
  "spread a b = foldl (\<lambda>acc kv. AList.update (fst kv) (snd kv) acc) a b"

definition or_else :: "'a option \<Rightarrow> 'a option \<Rightarrow> 'a option" where
  "or_else a b = (case a of Some v \<Rightarrow> Some v | None \<Rightarrow> b)"

definition defaults_options :: "(string \<times> jsval) list" where
  "defaults_options =
    [(''BatchMode'', JStr ''yes''),
     (''Compression'', JStr ''yes''),
     (''DSAAuthentication'', JStr ''yes''),
     (''LogLevel'', JStr ''FATAL''),
     (''StrictHostKeyChecking'', JStr ''no''),
     (''UserKnownHostsFile'', JStr ''/dev/null''),
     (''ForwardAgent'', JStr ''yes''),
     (''IdentitiesOnly'', JStr ''yes''),
     (''ControlMaster'', JStr ''no''),
     (''ExitOnForwardFailure'', JStr ''yes''),
     (''ConnectTimeout'', JNum 10)]"

definition SSH_defaults :: SSHOptions where
  "SSH_defaults =
    \<lparr>host = '''', user = Some '''', port = None, Identity = None,
     options = Some defaults_options\<rparr>"

text \<open>The instance: its \<open>connection\<close> field, undefined until assigned.\<close>

record SSH =
  connection :: "SSHOptions option"

text \<open>
  The property read \<^verbatim>\<open>connection!.options\<close>. The non-null assertion \<open>!\<close> is erased
  by the compiler, so on an undefined \<open>connection\<close> the read throws a TypeError.
\<close>

fun read_options :: "SSHOptions option \<Rightarrow> error + (string \<times> jsval) list option" where
  "read_options None = Inl TypeError"
| "read_options (Some c) = Inr (options c)"

text \<open>
  The object literal \<^verbatim>\<open>{ ...this.defaults, ...connection!, options: ... }\<close> once its
  \<open>options\<close> property has been evaluated to \<open>opts\<close>. Spreading an undefined value
  adds no property.
\<close>

definition merged_connection :: "SSHOptions option \<Rightarrow> (string \<times> jsval) list \<Rightarrow> SSHOptions" where
  "merged_connection conn opts =
    (case conn of
       None \<Rightarrow> SSH_defaults\<lparr>options := Some opts\<rparr>
     | Some c \<Rightarrow>
         \<lparr>host = host c,
          user = or_else (user c) (user SSH_defaults),
          port = or_else (port c) (port SSH_defaults),
          Identity = or_else (Identity c) (Identity SSH_defaults),
          options = Some opts\<rparr>)"

text \<open>
  The constructor. The first statement assigns the defaults when no connection is given;
  the second statement is executed in either case, and its result replaces the field.
\<close>

definition SSH_constructor :: "SSHOptions option \<Rightarrow> error + SSH" where
  "SSH_constructor conn =
    (let this = (case conn of None \<Rightarrow> \<lparr>connection = Some SSH_defaults\<rparr>
                            | Some _ \<Rightarrow> \<lparr>connection = None\<rparr>)
     in case read_options conn of
          Inl e \<Rightarrow> Inl e
        | Inr ro \<Rightarrow>
            Inr (this\<lparr>connection :=
              Some (merged_connection conn
                (spread (case options SSH_defaults of Some d \<Rightarrow> d | None \<Rightarrow> [])
                        (case ro of Some x \<Rightarrow> x | None \<Rightarrow> [])))\<rparr>))"


section \<open>Basic facts\<close>

lemma with_status_sel [simp]:
  "r_id (with_status s r) = r_id r" "r_name (with_status s r) = r_name r"
  "r_status (with_status s r) = s" "r_stats (with_status s r) = r_stats r"
  "r_tests (with_status s r) = r_tests r" "r_hasChildren (with_status s r) = r_hasChildren r"
  by (simp_all add: with_status_def)

lemma with_stats_sel [simp]:
  "r_id (with_stats st r) = r_id r" "r_name (with_stats st r) = r_name r"
  "r_status (with_stats st r) = r_status r" "r_stats (with_stats st r) = st"
  "r_tests (with_stats st r) = r_tests r" "r_hasChildren (with_stats st r) = r_hasChildren r"
  by (simp_all add: with_stats_def)

lemma with_tests_sel [simp]:
  "r_id (with_tests ts r) = r_id r" "r_name (with_tests ts r) = r_name r"
  "r_status (with_tests ts r) = r_status r" "r_stats (with_tests ts r) = r_stats r"
  "r_tests (with_tests ts r) = ts" "r_hasChildren (with_tests ts r) = r_hasChildren r"
  by (simp_all add: with_tests_def)

lemma with_hasChildren_sel [simp]:
  "r_id (with_hasChildren h r) = r_id r" "r_name (with_hasChildren h r) = r_name r"
  "r_status (with_hasChildren h r) = r_status r" "r_stats (with_hasChildren h r) = r_stats r"
  "r_tests (with_hasChildren h r) = r_tests r" "r_hasChildren (with_hasChildren h r) = h"
  by (simp_all add: with_hasChildren_def)

lemma tests_of_with [simp]:
  "tests_of (with_status s r) = tests_of r" "tests_of (with_stats st r) = tests_of r"
  by (simp_all add: tests_of_def)

lemma tests_of_empty_iff: "tests_of r = [] \<longleftrightarrow> r_tests r = None \<or> r_tests r = Some []"
  by (simp add: tests_of_def split: option.splits)

lemma node_sel [simp]:
  "status (with_result ro t) = status t" "result (with_result ro t) = ro"
  "children (with_result ro t) = children t" "selected (with_result ro t) = selected t"
  "expanded (with_result ro t) = expanded t" "partial (with_result ro t) = partial t"
  "status (with_children cs t) = status t" "result (with_children cs t) = result t"
  "children (with_children cs t) = cs" "selected (with_children cs t) = selected t"
  "expanded (with_children cs t) = expanded t" "partial (with_children cs t) = partial t"
  "status (with_partial p t) = status t" "result (with_partial p t) = result t"
  "children (with_partial p t) = children t" "selected (with_partial p t) = selected t"
  "expanded (with_partial p t) = expanded t" "partial (with_partial p t) = p"
  "status (updateStatus t s) = s" "result (updateStatus t s) = result t"
  "children (updateStatus t s) = children t" "selected (updateStatus t s) = selected t"
  "expanded (updateStatus t s) = expanded t" "partial (updateStatus t s) = partial t"
  by (simp_all add: with_result_def with_children_def with_partial_def updateStatus_def)

lemma afterDebrief_sel [simp]:
  "result (afterDebrief frs t) = result t"
  "children (afterDebrief frs t) = children t"
  "selected (afterDebrief frs t) = selected t"
  "expanded (afterDebrief frs t) = expanded t"
  "status (afterDebrief frs t) = aggregate (map getStatus (children t))"
  "partial (afterDebrief frs t) = list_ex (\<lambda>c. getId c \<notin> set (map r_id frs)) (children t)"
  by (simp_all add: afterDebrief_def)

subsection \<open>What \<open>build\<close> leaves in each field\<close>

lemma mergeTest_unfold:
  "mergeTest cs fr cleanup now =
     (case index_of_id (r_id fr) cs of
        None \<Rightarrow> cs @ [build nugget fr False now]
      | Some i \<Rightarrow> cs[i := build (cs ! i) fr cleanup now])"
  by (simp add: mergeTest.simps mergedTest.simps split: option.splits)

lemma result_build:
  "result (build this r cleanup now) =
     Some (if tests_of r = [] then mergeResults this (with_status (getRecursiveStatus r) r) now
           else with_tests (Some (amendedTests (children this) (tests_of r) cleanup now))
                  (mergeResults this (with_status (getRecursiveStatus r) r) now))"
  by (simp add: build.simps debriefTests.simps Let_def)

lemma children_build:
  "children (build this r cleanup now) =
     (if tests_of r = [] then children this
      else if cleanup
        then cleanupTests (tests_of r) (mergeTests (children this) (tests_of r) cleanup now)
      else mergeTests (children this) (tests_of r) cleanup now)"
  by (simp add: build.simps debriefTests.simps Let_def)




subsection \<open>The first-seen and last-run stamps\<close>

lemma get_first_with_status [simp]:
  "get_stats_first (Some (with_status s r)) = get_stats_first (Some r)"
  by (simp add: get_stats_first_def)

lemma get_last_with_status [simp]:
  "get_stats_last (Some (with_status s r)) = get_stats_last (Some r)"
  by (simp add: get_stats_last_def)

lemma get_first_mergeResults:
  "get_stats_first (Some (mergeResults this r now)) =
     (if truthy (get_stats_first (Some r)) then get_stats_first (Some r)
      else Some (case get_stats_first (result this) of Some v \<Rightarrow> v | None \<Rightarrow> now))"
  by (simp add: mergeResults_def get_stats_first_def update_conv')

lemma get_last_mergeResults:
  "get_stats_last (Some (mergeResults this r now)) = get_stats_last (Some r)"
  by (simp add: mergeResults_def get_stats_last_def get_stats_first_def stats_or_empty_def
        update_conv' split: option.splits)

lemma stamped_last:
  "get_stats_last (Some (with_stats (Some (AList.update ''last'' now (stats_or_empty r))) r))
     = Some now"
  by (simp add: get_stats_last_def update_conv')

lemma stamped_first:
  "get_stats_first (Some (with_stats (Some (AList.update ''last'' now (stats_or_empty r))) r))
     = get_stats_first (Some r)"
  by (simp add: get_stats_first_def stats_or_empty_def update_conv' split: option.splits)

lemma first_result_build:
  "get_stats_first (result (build this r cleanup now))
     = get_stats_first (Some (mergeResults this (with_status (getRecursiveStatus r) r) now))"
  by (simp add: result_build get_stats_first_def)

lemma last_result_build:
  "get_stats_last (result (build this r cleanup now))
     = get_stats_last (Some (mergeResults this (with_status (getRecursiveStatus r) r) now))"
  by (simp add: result_build get_stats_last_def)

lemma leaf_not_stamped: "\<not> truthy (get_stats_first (Some (leaf i s)))"
  by (simp add: truthy_def get_stats_first_def leaf_def)

lemma incoming_first_truthy: "truthy (get_stats_first (Some incoming_first))"
  by (simp add: truthy_def get_stats_first_def incoming_first_def)

lemma stored_first_truthy: "truthy (get_stats_first (Some stored_first))"
  by (simp add: truthy_def get_stats_first_def stored_first_def)

lemma first_of_stored:
  "get_stats_first (result (newTest stored_first now)) = Some ''2020-01-01T00:00:00.000Z''"
  by (simp add: newTest_def first_result_build get_first_mergeResults stored_first_truthy)
     (simp add: get_stats_first_def stored_first_def)

text \<open>
  C1, as amended. An incoming result that carries a first-seen date of its own keeps
  it. When it carries none, \<open>mergeResults\<close> takes the date of the existing result if
  there is one, and the current time otherwise. Hence debriefing a test, and then
  debriefing it again with a result that carries no first-seen date of its own, leaves
  \<open>stats.first\<close> as the first debrief left it, while \<open>stats.last\<close> is the time of
  the second debrief.
\<close>

theorem first_seen_preserved:
  assumes "\<not> truthy (get_stats_first (Some r))"
  shows "get_stats_first (Some (mergeResults this r' now))
           = (if truthy (get_stats_first (Some r')) then get_stats_first (Some r')
              else Some (case get_stats_first (result this) of Some v \<Rightarrow> v | None \<Rightarrow> now))
         \<and> get_stats_first (Some (mergeResults this r now))
           = Some (case get_stats_first (result this) of Some v \<Rightarrow> v | None \<Rightarrow> now)
         \<and> (\<exists>t1 t2. debrief this r0 c0 n0 = Resolved (t1, [''debriefed''])
               \<and> debrief t1 r c n = Resolved (t2, [''debriefed''])
               \<and> get_stats_first (result t1) \<noteq> None
               \<and> get_stats_first (result t2) = get_stats_first (result t1)
               \<and> get_stats_last (result t2) = Some n)"
proof (intro conjI)
  show "get_stats_first (Some (mergeResults this r' now))
           = (if truthy (get_stats_first (Some r')) then get_stats_first (Some r')
              else Some (case get_stats_first (result this) of Some v \<Rightarrow> v | None \<Rightarrow> now))"
    by (rule get_first_mergeResults)
next
  from assms show "get_stats_first (Some (mergeResults this r now))
           = Some (case get_stats_first (result this) of Some v \<Rightarrow> v | None \<Rightarrow> now)"
    by (simp add: get_first_mergeResults)
next
  let ?ra = "with_stats (Some (AList.update ''last'' n0 (stats_or_empty r0))) r0"
  let ?rb = "with_stats (Some (AList.update ''last'' n (stats_or_empty r))) r"
  let ?ta = "build this ?ra c0 n0"
  let ?tb = "build ?ta ?rb c n"
  have 1: "debrief this r0 c0 n0 = Resolved (?ta, [''debriefed''])"
    by (simp add: debrief_def Let_def)
  have 2: "debrief ?ta r c n = Resolved (?tb, [''debriefed''])"
    by (simp add: debrief_def Let_def)
  have 3: "get_stats_first (result ?ta) \<noteq> None"
    by (auto simp: first_result_build get_first_mergeResults truthy_def split: option.splits)
  have 4: "get_stats_first (result ?tb) = get_stats_first (result ?ta)"
    using assms 3
    by (auto simp: first_result_build [of ?ta] get_first_mergeResults stamped_first)
  have 5: "get_stats_last (result ?tb) = Some n"
    by (simp add: last_result_build [of ?ta] get_last_mergeResults stamped_last)
  from 1 2 3 4 5
  have "debrief this r0 c0 n0 = Resolved (?ta, [''debriefed''])
               \<and> debrief ?ta r c n = Resolved (?tb, [''debriefed''])
               \<and> get_stats_first (result ?ta) \<noteq> None
               \<and> get_stats_first (result ?tb) = get_stats_first (result ?ta)
               \<and> get_stats_last (result ?tb) = Some n"
    by (intro conjI)
  then show "\<exists>t1 t2. debrief this r0 c0 n0 = Resolved (t1, [''debriefed''])
               \<and> debrief t1 r c n = Resolved (t2, [''debriefed''])
               \<and> get_stats_first (result t1) \<noteq> None
               \<and> get_stats_first (result t2) = get_stats_first (result t1)
               \<and> get_stats_last (result t2) = Some n"
    by - (rule exI, rule exI, assumption)
qed

theorem first_seen_preserved_witness:
  "\<not> truthy (get_stats_first (Some (leaf ''t1'' Passed)))
   \<and> get_stats_first
       (Some (mergeResults (newTest stored_first ''2020-01-01T00:00:00.000Z'')
                (leaf ''t1'' Passed) ''2022-01-01T00:00:00.000Z''))
     = Some ''2020-01-01T00:00:00.000Z''"
  using first_seen_preserved [where r = "leaf ''t1'' Passed"
      and this = "newTest stored_first ''2020-01-01T00:00:00.000Z''"
      and now = "''2022-01-01T00:00:00.000Z''"]
  by (simp add: first_of_stored leaf_not_stamped)

text \<open>
  C1, as stated, fails: a test whose result was first seen in 2020 is merged with an
  incoming result that carries a first-seen date of 2021; the merged date is the
  incoming one, not the one of the existing node.
\<close>

theorem incoming_first_seen_prevails:
  "\<not> (get_stats_first
        (Some (mergeResults (newTest stored_first ''2020-01-01T00:00:00.000Z'') incoming_first
                 ''2022-01-01T00:00:00.000Z''))
      = get_stats_first (result (newTest stored_first ''2020-01-01T00:00:00.000Z'')))"
  by (simp add: first_of_stored get_first_mergeResults incoming_first_truthy)
     (simp add: get_stats_first_def incoming_first_def)

subsection \<open>\<open>debrief\<close> over the inherited methods\<close>

lemma build_is_Test_build:
  "Test_build (modelled_methods now) this r cleanup now = Inr (build this r cleanup now)"
  by (simp add: Test_build_def modelled_methods_def build.simps Let_def)

lemma debrief_is_Test_debrief:
  "Test_debrief (modelled_methods now) this (Some r) cleanup now now
     = Returns (debrief this r cleanup now)"
  by (simp add: Test_debrief_def build_is_Test_build debrief_def stamp_last_def Let_def)




section \<open>Properties of the aggregation\<close>

lemma precedence_inj: "precedence a = precedence b \<Longrightarrow> a = b"
  by (cases a; cases b; simp)

lemma precedence_higher: "precedence (higher a b) = max (precedence a) (precedence b)"
  by (simp add: higher_def max_def)

lemma precedence_aggregate:
  "precedence (aggregate ss) = Max (insert 0 (precedence ` set ss))"
proof (induction ss)
  case Nil
  show ?case by (simp add: aggregate_def)
next
  case (Cons s ss)
  have "precedence (aggregate (s # ss)) = max (precedence s) (precedence (aggregate ss))"
    by (simp add: aggregate_def precedence_higher)
  also have "\<dots> = max (precedence s) (Max (insert 0 (precedence ` set ss)))"
    by (simp add: Cons.IH)
  also have "\<dots> = Max (insert (precedence s) (insert 0 (precedence ` set ss)))"
    by simp
  also have "insert (precedence s) (insert 0 (precedence ` set ss))
      = insert 0 (precedence ` set (s # ss))"
    by auto
  finally show ?case .
qed

lemma aggregate_set_cong: "set xs = set ys \<Longrightarrow> aggregate xs = aggregate ys"
  by (rule precedence_inj) (simp add: precedence_aggregate)

text \<open>
  C5. The aggregate is a function of the multiset of the children's statuses: two
  sequences with the same statuses in any order give the same parent status. The
  recomputation is idempotent: recomputing a node again, with nothing new, changes
  nothing.
\<close>

theorem aggregate_order_independent:
  assumes "mset xs = mset ys"
  shows "aggregate xs = aggregate ys
         \<and> afterDebrief frs (afterDebrief frs this) = afterDebrief frs this"
proof
  from assms have "set xs = set ys" by (rule mset_eq_setD)
  then show "aggregate xs = aggregate ys" by (rule aggregate_set_cong)
  show "afterDebrief frs (afterDebrief frs this) = afterDebrief frs this"
    by (simp add: afterDebrief_def with_partial_def updateStatus_def)
qed

theorem aggregate_order_independent_witness:
  "mset [Passed, Warning, Idle] = mset [Idle, Passed, Warning]
   \<and> aggregate [Passed, Warning, Idle] = Warning
   \<and> aggregate [Idle, Passed, Warning] = Warning"
proof -
  have h: "mset [Passed, Warning, Idle] = mset [Idle, Passed, Warning]" by simp
  have "aggregate [Idle, Passed, Warning] = Warning"
    by (simp add: aggregate_def higher_def)
  with h aggregate_order_independent [OF h] show ?thesis by simp
qed

section \<open>Properties of the merge\<close>

lemma index_of_id_Some:
  "index_of_id i cs = Some j \<Longrightarrow> j < length cs \<and> getId (cs ! j) = i"
proof (induction cs arbitrary: j)
  case Nil
  then show ?case by simp
next
  case (Cons c cs)
  then show ?case by (cases j) (auto split: if_splits)
qed

lemma mergeTest_untouched:
  assumes "i < length cs" and "getId (cs ! i) \<noteq> r_id fr"
  shows "i < length (mergeTest cs fr c n) \<and> mergeTest cs fr c n ! i = cs ! i"
proof (cases "index_of_id (r_id fr) cs")
  case None
  with assms show ?thesis by (simp add: mergeTest_unfold nth_append)
next
  case (Some j)
  with index_of_id_Some [OF Some] assms have "j \<noteq> i" by auto
  with Some assms show ?thesis by (simp add: mergeTest_unfold)
qed

lemma mergeTests_untouched:
  "i < length cs \<Longrightarrow> getId (cs ! i) \<notin> set (map r_id frs) \<Longrightarrow>
     i < length (mergeTests cs frs c n) \<and> mergeTests cs frs c n ! i = cs ! i"
proof (induction frs arbitrary: cs)
  case Nil
  then show ?case by simp
next
  case (Cons fr frs)
  from Cons.prems have ne: "getId (cs ! i) \<noteq> r_id fr" by auto
  from mergeTest_untouched [OF Cons.prems(1) ne, of c n]
  have 1: "i < length (mergeTest cs fr c n)" and 2: "mergeTest cs fr c n ! i = cs ! i"
    by simp_all
  from Cons.prems 2 have 3: "getId (mergeTest cs fr c n ! i) \<notin> set (map r_id frs)" by simp
  from Cons.IH [OF 1 3] 2 show ?case by simp
qed

lemma stamped_leaf_sel [simp]:
  "r_id (stamped_leaf i s t) = Some i" "r_status (stamped_leaf i s t) = Some s"
  "r_tests (stamped_leaf i s t) = None"
  by (simp_all add: stamped_leaf_def)

lemma suite_AB_value:
  "suite_AB =
    Test Failed
      (Some (ITestResult (Some ''suite'') (Some ''suite'') None (Some Failed) None None None
         (Some [(''first'', ''2020-01-01T00:00:00.000Z'')]) None
         (Some [stamped_leaf ''A'' Passed ''2020-01-01T00:00:00.000Z'',
                stamped_leaf ''B'' Failed ''2020-01-01T00:00:00.000Z'']) None))
      [Test Passed (Some (stamped_leaf ''A'' Passed ''2020-01-01T00:00:00.000Z''))
         [] False False False,
       Test Failed (Some (stamped_leaf ''B'' Failed ''2020-01-01T00:00:00.000Z''))
         [] False False False]
      False False False"
  by (simp add: suite_AB_def newTest_def build.simps debriefTests.simps mergeTest_unfold
        mergedTest.simps amended_def Let_def stamped_leaf_def
        suite_fragment_def leaf_def tests_of_def getRecursiveStatus.simps nugget_def
        getId_def mergeResults_def truthy_def get_stats_first_def stats_or_empty_def
        afterDebrief_def getStatus_def aggregate_def higher_def
        with_status_def with_stats_def with_tests_def with_result_def with_children_def
        with_partial_def updateStatus_def)

lemma rerun_A:
  "build suite_AB (suite_fragment ''suite'' [leaf ''A'' Passed]) False now =
    Test Failed
      (Some (ITestResult (Some ''suite'') (Some ''suite'') None (Some Passed) None None None
         (Some [(''first'', ''2020-01-01T00:00:00.000Z'')]) None
         (Some [stamped_leaf ''A'' Passed ''2020-01-01T00:00:00.000Z'']) None))
      [Test Passed (Some (stamped_leaf ''A'' Passed ''2020-01-01T00:00:00.000Z''))
         [] False False False,
       Test Failed (Some (stamped_leaf ''B'' Failed ''2020-01-01T00:00:00.000Z''))
         [] False False False]
      False False True"
  by (simp add: suite_AB_value build.simps debriefTests.simps mergeTest_unfold
        mergedTest.simps amended_def Let_def stamped_leaf_def
        suite_fragment_def leaf_def tests_of_def getRecursiveStatus.simps nugget_def
        getId_def mergeResults_def truthy_def get_stats_first_def stats_or_empty_def
        afterDebrief_def getStatus_def aggregate_def higher_def
        with_status_def with_stats_def with_tests_def with_result_def with_children_def
        with_partial_def updateStatus_def)

text \<open>
  C4. Building without cleanup leaves every existing child that the fragment does not
  represent where it is and as it is. In particular, in the suite with A (passed) and
  B (failed), re-running only A, which passes again, leaves B failed and the suite failed,
  with \<open>partial\<close> set.
\<close>

theorem build_preserves_untouched_children:
  assumes "i < length (children this)"
    and "getId (children this ! i) \<notin> set (map r_id (tests_of r))"
  shows "i < length (children (build this r False now))
         \<and> children (build this r False now) ! i = children this ! i
         \<and> map status (children (build suite_AB (suite_fragment ''suite'' [leaf ''A'' Passed])
                                    False now)) = [Passed, Failed]
         \<and> status (build suite_AB (suite_fragment ''suite'' [leaf ''A'' Passed]) False now)
             = Failed
         \<and> partial (build suite_AB (suite_fragment ''suite'' [leaf ''A'' Passed]) False now)"
  using mergeTests_untouched [OF assms] assms by (simp add: children_build rerun_A)

theorem build_preserves_untouched_children_witness:
  "1 < length (children suite_AB)
   \<and> getId (children suite_AB ! 1)
       \<notin> set (map r_id (tests_of (suite_fragment ''suite'' [leaf ''A'' Passed])))
   \<and> children (build suite_AB (suite_fragment ''suite'' [leaf ''A'' Passed]) False
                  ''2021-01-01T00:00:00.000Z'') ! 1
       = children suite_AB ! 1
   \<and> status (children suite_AB ! 1) = Failed"
proof -
  have 1: "1 < length (children suite_AB)"
    by (simp add: suite_AB_value)
  have 2: "getId (children suite_AB ! 1)
       \<notin> set (map r_id (tests_of (suite_fragment ''suite'' [leaf ''A'' Passed])))"
    by (simp add: suite_AB_value getId_def tests_of_def suite_fragment_def leaf_def)
  have 3: "status (children suite_AB ! 1) = Failed"
    by (simp add: suite_AB_value)
  from build_preserves_untouched_children [OF 1 2, of "''2021-01-01T00:00:00.000Z''"] 1 2 3
  show ?thesis by simp
qed

text \<open>
  C9. When the fragment's \<open>tests\<close> is absent or an empty array, \<open>build\<close> leaves the
  children as they are, with cleanup and without: the children are only debriefed for a
  non-empty child list.
\<close>

theorem build_without_tests_keeps_children:
  assumes "r_tests r = None \<or> r_tests r = Some []"
  shows "children (build this r cleanup now) = children this"
  using assms by (simp add: children_build tests_of_empty_iff)

theorem build_without_tests_keeps_children_witness:
  "(r_tests (suite_fragment ''suite'' []) = None \<or> r_tests (suite_fragment ''suite'' []) = Some [])
   \<and> length (children (build suite_AB (suite_fragment ''suite'' []) True
                          ''2021-01-01T00:00:00.000Z'')) = 2"
proof -
  have h: "r_tests (suite_fragment ''suite'' []) = None
           \<or> r_tests (suite_fragment ''suite'' []) = Some []"
    by (simp add: suite_fragment_def)
  from build_without_tests_keeps_children [OF h, of suite_AB True "''2021-01-01T00:00:00.000Z''"] h
  show ?thesis by (simp add: suite_AB_value)
qed

section \<open>Building twice\<close>

text \<open>
  The children of a node are merged from the child list of the fragment, and each child
  receives the fragments that carry its id, in order (\<open>buildAll\<close>). When the ids of
  the list are distinct each child receives one fragment, and the proof is an induction
  on the fragment.
\<close>

subsection \<open>Ids and positions of the children\<close>

lemma buildAll_simps [simp]:
  "buildAll t [] n = t"
  "buildAll t (f # fs) n = buildAll (build t f False n) fs n"
  "buildAll t (fs @ gs) n = buildAll (buildAll t fs n) gs n"
  by (simp_all add: buildAll_def)

lemma r_id_mergeResults [simp]: "r_id (mergeResults this r now) = r_id r"
  by (simp add: mergeResults_def)

lemma getId_build [simp]: "getId (build this r cleanup now) = r_id r"
  by (simp add: getId_def result_build)








subsection \<open>What each child receives\<close>










subsection \<open>The node itself\<close>














section \<open>Properties of \<open>persist\<close> and \<open>render\<close>\<close>

lemma defaults_sel:
  "r_id (defaults r st) = r_id r"
  "r_name (defaults r st) = r_name r"
  "r_displayName (defaults r st) = r_displayName r"
  "r_status (defaults r st) = (case st of None \<Rightarrow> r_status r | Some s \<Rightarrow> Some s)"
  "r_feedback (defaults r st) = r_feedback r"
  "r_console (defaults r st) = r_console r"
  "r_params (defaults r st) = r_params r"
  "r_stats (defaults r st) = r_stats r"
  "r_isLast (defaults r st) = r_isLast r"
  "r_tests (defaults r st) = map_option (map (\<lambda>t. defaults t st)) (r_tests r)"
  "r_hasChildren (defaults r st) = r_hasChildren r"
  by (simp_all add: defaults.simps [of r] with_tests_def with_status_def
        split: option.splits)

lemma tests_of_defaults: "tests_of (defaults r st) = map (\<lambda>t. defaults t st) (tests_of r)"
  by (simp add: tests_of_def defaults_sel split: option.splits)

lemma statuses_defaults_Some:
  "statuses (defaults r (Some s)) = map (\<lambda>_. Some s) (statuses r)"
proof (induction r rule: statuses.induct)
  case (1 r)
  have "statuses (defaults r (Some s))
      = Some s # concat (map (\<lambda>t. statuses (defaults t (Some s))) (tests_of r))"
    by (subst statuses.simps) (simp add: defaults_sel tests_of_defaults comp_def)
  also have "map (\<lambda>t. statuses (defaults t (Some s))) (tests_of r)
      = map (\<lambda>t. map (\<lambda>_. Some s) (statuses t)) (tests_of r)"
    using "1.IH" by simp
  also have "Some s # concat (map (\<lambda>t. map (\<lambda>_. Some s) (statuses t)) (tests_of r))
      = map (\<lambda>_. Some s) (r_status r # concat (map statuses (tests_of r)))"
    by (simp add: map_concat comp_def)
  also have "r_status r # concat (map statuses (tests_of r)) = statuses r"
    by (rule statuses.simps [symmetric])
  finally show ?case .
qed

lemma defaults_None: "defaults r None = r"
proof (induction r rule: statuses.induct)
  case (1 r)
  have "map_option (map (\<lambda>t. defaults t None)) (r_tests r) = r_tests r"
  proof (cases "r_tests r")
    case None
    then show ?thesis by simp
  next
    case (Some ts)
    with "1.IH" have "map (\<lambda>t. defaults t None) ts = ts"
      by (simp add: tests_of_def map_idI)
    with Some show ?thesis by simp
  qed
  then show ?case
    by (intro ITestResult.expand) (simp add: defaults_sel)
qed

lemma with_sel_other [simp]:
  "r_displayName (with_status s r) = r_displayName r" "r_feedback (with_status s r) = r_feedback r"
  "r_console (with_status s r) = r_console r" "r_params (with_status s r) = r_params r"
  "r_isLast (with_status s r) = r_isLast r"
  "r_displayName (with_tests ts r) = r_displayName r" "r_feedback (with_tests ts r) = r_feedback r"
  "r_console (with_tests ts r) = r_console r" "r_params (with_tests ts r) = r_params r"
  "r_isLast (with_tests ts r) = r_isLast r"
  by (simp_all add: with_status_def with_tests_def)

lemma erase_statuses_sel:
  "r_id (erase_statuses r) = r_id r"
  "r_name (erase_statuses r) = r_name r"
  "r_displayName (erase_statuses r) = r_displayName r"
  "r_status (erase_statuses r) = None"
  "r_feedback (erase_statuses r) = r_feedback r"
  "r_console (erase_statuses r) = r_console r"
  "r_params (erase_statuses r) = r_params r"
  "r_stats (erase_statuses r) = r_stats r"
  "r_isLast (erase_statuses r) = r_isLast r"
  "r_tests (erase_statuses r) = map_option (map erase_statuses) (r_tests r)"
  "r_hasChildren (erase_statuses r) = r_hasChildren r"
  by (simp_all add: erase_statuses.simps [of r] split: option.splits)

lemma erase_statuses_defaults: "erase_statuses (defaults r st) = erase_statuses r"
proof (induction r rule: statuses.induct)
  case (1 r)
  have "map_option (map erase_statuses \<circ> map (\<lambda>t. defaults t st)) (r_tests r)
      = map_option (map erase_statuses) (r_tests r)"
  proof (cases "r_tests r")
    case None
    then show ?thesis by simp
  next
    case (Some ts)
    with "1.IH"
    have "map (\<lambda>t. erase_statuses (defaults t st)) ts = map erase_statuses ts"
      by (simp add: tests_of_def)
    with Some show ?thesis by (simp add: comp_def)
  qed
  then show ?case
    by (intro ITestResult.expand) (simp add: defaults_sel erase_statuses_sel option.map_comp)
qed

text \<open>
  C6. With its default argument \<open>persist\<close> returns the whole result tree with every
  status set to \<open>idle\<close> and nothing else changed. Another status appears only when
  asked for: \<open>persist(false)\<close> returns the tree with its current statuses, and
  \<open>persist(s)\<close> the tree with every status \<open>s\<close>.
\<close>

theorem persist_default_idle:
  assumes "result this = Some r"
  shows "persist this None = Some (defaults r (Some Idle))
         \<and> statuses (defaults r (Some Idle)) = map (\<lambda>_. Some Idle) (statuses r)
         \<and> erase_statuses (defaults r (Some Idle)) = erase_statuses r
         \<and> persist this (Some None) = Some r
         \<and> persist this (Some (Some s)) = Some (defaults r (Some s))
         \<and> statuses (defaults r (Some s)) = map (\<lambda>_. Some s) (statuses r)"
  using assms
  by (simp add: persist_def status_argument_def defaults_None erase_statuses_defaults
        statuses_defaults_Some)

theorem persist_default_idle_witness:
  "result (Test Running
             (Some (with_status (Some Running) (suite_fragment ''suite'' [leaf ''A'' Running])))
             [] False False False)
     = Some (with_status (Some Running) (suite_fragment ''suite'' [leaf ''A'' Running]))
   \<and> persist (Test Running
                (Some (with_status (Some Running) (suite_fragment ''suite'' [leaf ''A'' Running])))
                [] False False False) None
     = Some (with_status (Some Idle) (suite_fragment ''suite'' [leaf ''A'' Idle]))
   \<and> statuses (with_status (Some Idle) (suite_fragment ''suite'' [leaf ''A'' Idle]))
     = [Some Idle, Some Idle]"
proof -
  let ?r = "with_status (Some Running) (suite_fragment ''suite'' [leaf ''A'' Running])"
  have h: "result (Test Running (Some ?r) [] False False False) = Some ?r" by simp
  have d: "defaults ?r (Some Idle)
      = with_status (Some Idle) (suite_fragment ''suite'' [leaf ''A'' Idle])"
    by (simp add: defaults.simps leaf_def suite_fragment_def with_tests_def with_status_def)
  have "statuses ?r = [Some Running, Some Running]"
    by (simp add: statuses.simps leaf_def suite_fragment_def with_status_def tests_of_def)
  with persist_default_idle [OF h] h d show ?thesis by simp
qed

text \<open>
  C7. The payload of \<open>render\<close> has no \<open>tests\<close> property, whatever the depth of the
  tree; it carries \<open>hasChildren\<close>, \<open>selected\<close> and \<open>partial\<close> instead.
\<close>

theorem render_omits_tests:
  assumes "result this = Some r"
  shows "\<exists>p. render this a = Some p
           \<and> r_tests (payload p) = None
           \<and> tests_of (payload p) = []
           \<and> r_hasChildren (payload p) = Some (hasChildren this)
           \<and> payload_selected p = selected this
           \<and> payload_partial p = partial this"
  using assms by (simp add: render_def tests_of_def)

theorem render_omits_tests_witness:
  "result suite_AB \<noteq> None
   \<and> (\<exists>p. render suite_AB None = Some p
          \<and> r_tests (payload p) = None
          \<and> r_hasChildren (payload p) = Some True
          \<and> \<not> payload_selected p \<and> \<not> payload_partial p)"
proof -
  obtain r where h: "result suite_AB = Some r" by (simp add: suite_AB_value)
  have "hasChildren suite_AB" "\<not> selected suite_AB" "\<not> partial suite_AB"
    by (simp_all add: hasChildren_def suite_AB_value)
  with render_omits_tests [OF h, of None] h show ?thesis by auto
qed

section \<open>Properties of the lookup\<close>

lemma find_SomeD: "find P xs = Some x \<Longrightarrow> x \<in> set xs \<and> P x"
  by (induction xs) (auto split: if_splits)

lemma children_after_expansion:
  "(if expanded n then Resolved n else toggleExpanded load n) = Resolved n'
     \<Longrightarrow> children n' = children_seen load n"
  by (auto simp: toggleExpanded_def children_seen_def with_expanded_def with_children_def
        split: if_splits promise.splits option.splits)

lemma entities_loop_path:
  "entities_loop load fw cur ids acc = Inr res \<Longrightarrow> ids \<noteq> [] \<Longrightarrow>
     path_exists load (case cur of None \<Rightarrow> suites fw | Some n \<Rightarrow> children n) ids"
proof (induction load fw cur ids acc arbitrary: res rule: entities_loop.induct)
  case (1 load fw cur ids acc)
  from "1.prems"(2) obtain i rest where ids: "ids = i # rest" by (cases ids) auto
  let ?cs = "case cur of None \<Rightarrow> suites fw | Some n \<Rightarrow> children n"
  let ?found = "case cur of Some n \<Rightarrow> findTest n (shift ids)
                | None \<Rightarrow> getSuiteById fw (shift ids)"
  have found_eq: "?found = find (\<lambda>c. getId c = Some i) ?cs"
    by (simp add: ids shift_def findTest_def getSuiteById_def split: option.splits)
  from "1.prems"(1) obtain n where n: "?found = Some n"
    by (subst (asm) entities_loop.simps) (auto split: option.splits)
  with found_eq find_SomeD [of "\<lambda>c. getId c = Some i" ?cs n]
  have mem: "n \<in> set ?cs" and idn: "getId n = Some i" by simp_all
  from "1.prems"(1) n obtain n' where
    n': "(if expanded n then Resolved n else toggleExpanded load n) = Resolved n'"
    by (subst (asm) entities_loop.simps) (auto split: promise.splits)
  then have ch: "children n' = children_seen load n" by (rule children_after_expansion)
  have "path_exists load (children_seen load n) rest"
  proof (cases "rest = []")
    case True
    then show ?thesis by simp
  next
    case False
    then have gt: "0 < length (tl ids)" by (simp add: ids)
    from "1.prems"(1) n n' gt
    have "entities_loop load fw (Some n') (tl ids) (acc @ [n']) = Inr res"
      by (subst (asm) entities_loop.simps) (simp add: Let_def)
    from "1.IH" [OF n n' refl gt this] False ch show ?thesis
      by (simp add: ids)
  qed
  with mem idn show ?case by (auto simp: ids list_ex_iff)
qed

text \<open>
  C8. When the identifier path does not exist in the framework's current tree, the
  lookup is answered as not found: the promise of \<open>entities\<close> rejects, and the
  \<open>test-get\<close> handler replies with a null framework and null nuggets; no node is
  returned.
\<close>

theorem missing_entity_not_found:
  assumes "p frameworkId = Some ctx"
    and "\<not> path_exists load (suites (framework ctx)) identifiers"
  shows "entities load (Some p) frameworkId identifiers = Rejected
         \<and> test_get load (Some p) frameworkId identifiers = not_found_reply
         \<and> reply_framework (test_get load (Some p) frameworkId identifiers) = None
         \<and> reply_nuggets (test_get load (Some p) frameworkId identifiers) = None"
proof -
  from assms(2) have ne: "identifiers \<noteq> []" by (cases identifiers) auto
  have "\<And>res. entities_loop load (framework ctx) None identifiers [] \<noteq> Inr res"
    using entities_loop_path [of load "framework ctx" None identifiers "[]"] ne assms(2) by auto
  then obtain e where "entities_loop load (framework ctx) None identifiers [] = Inl e"
    by (cases "entities_loop load (framework ctx) None identifiers []") auto
  with assms(1) ne have "entities load (Some p) frameworkId identifiers = Rejected"
    by (simp add: entities_def)
  then show ?thesis by (simp add: test_get_def not_found_reply_def)
qed

theorem missing_entity_not_found_witness:
  "(\<lambda>f. Some \<lparr>repository = ''repo'', framework = \<lparr>suites = [suite_AB]\<rparr>\<rparr>) ''fw''
     = Some \<lparr>repository = ''repo'', framework = \<lparr>suites = [suite_AB]\<rparr>\<rparr>
   \<and> \<not> path_exists (\<lambda>n. Resolved None) [suite_AB] [''suite'', ''C'']
   \<and> path_exists (\<lambda>n. Resolved None) [suite_AB] [''suite'', ''B'']
   \<and> entities (\<lambda>n. Resolved None)
        (Some (\<lambda>f. Some \<lparr>repository = ''repo'', framework = \<lparr>suites = [suite_AB]\<rparr>\<rparr>))
        ''fw'' [''suite'', ''C''] = Rejected"
proof -
  let ?ctx = "\<lparr>repository = ''repo'', framework = \<lparr>suites = [suite_AB]\<rparr>\<rparr>"
  let ?load = "(\<lambda>n. Resolved None) :: LazyLoad"
  have 1: "(\<lambda>f. Some ?ctx) ''fw'' = Some ?ctx" by simp
  have 2: "\<not> path_exists ?load (suites (framework ?ctx)) [''suite'', ''C'']"
    by (simp add: suite_AB_value getId_def children_seen_def)
  have 3: "path_exists ?load [suite_AB] [''suite'', ''B'']"
    by (simp add: suite_AB_value getId_def children_seen_def)
  from missing_entity_not_found [of "\<lambda>f. Some ?ctx" "''fw''" ?ctx ?load "[''suite'', ''C'']", OF 1 2] 2 3
  show ?thesis by simp
qed

section \<open>Properties of the SSH constructor\<close>

text \<open>
  C10. Constructing \<open>SSH\<close> with no connection argument throws a TypeError: after the
  defaults have been assigned the constructor still reads \<open>connection!.options\<close>.
  With a connection argument the constructor returns an instance whose connection is
  set.
\<close>

theorem SSH_constructor_undefined_throws:
  "SSH_constructor None = Inl TypeError
   \<and> (\<exists>s c'. SSH_constructor (Some c) = Inr s \<and> connection s = Some c')"
  by (simp add: SSH_constructor_def)


end
